theory Spec2Isabelle
  imports Main "HOL-Library.Char_ord" "HOL-Library.List_Lexorder"
begin

section \<open>Errors and exit codes (package app)\<close>

text \<open>
  A Go \<^verbatim>\<open>error\<close> value is \<^verbatim>\<open>nil\<close> or one of the error types that this repository and the
  standard library build. The model is \<open>err option\<close> with \<open>None\<close> for the \<^verbatim>\<open>nil\<close> interface
  value; the constructors are named after the Go types:

  \<^item> \<open>ErrorString\<close>: the result of \<^verbatim>\<open>errors.New\<close>, and of \<^verbatim>\<open>fmt.Errorf\<close> without \<^verbatim>\<open>%w\<close>;
  \<^item> \<open>FmtWrapError\<close>: the result of \<^verbatim>\<open>fmt.Errorf\<close> with one \<^verbatim>\<open>%w\<close> (its \<^verbatim>\<open>Unwrap\<close> returns
    the wrapped error);
  \<^item> \<open>JoinError\<close>: the result of \<^verbatim>\<open>errors.Join\<close> (its \<^verbatim>\<open>Unwrap\<close> returns a slice);
  \<^item> \<open>AppError\<close>: a non-nil \<^verbatim>\<open>*appError\<close> of package app, with the \<^verbatim>\<open>exitCode\<close> field and the
    wrapped error of the struct it points to;
  \<^item> \<open>NilAppError\<close>: the nil pointer of type \<^verbatim>\<open>*appError\<close> stored in an \<^verbatim>\<open>error\<close>: an error
    value that is not \<^verbatim>\<open>nil\<close> although the pointer in it is;
  \<^item> \<open>InvalidArgumentError\<close>: a non-nil \<^verbatim>\<open>*invalidArgumentError\<close> of package appcmd.

  Error types of other packages, with \<^verbatim>\<open>Unwrap\<close> or \<^verbatim>\<open>As\<close> methods of their own, and nil
  pointers of types other than \<^verbatim>\<open>*appError\<close> are outside the model. Exit codes are Go
  \<^verbatim>\<open>int\<close>s that are only stored and returned, never computed with, so they are \<open>int\<close>.
\<close>

text \<open>
  Modelled from the spec: the declarations of \<^verbatim>\<open>appError\<close> and \<^verbatim>\<open>invalidArgumentError\<close> and
  their methods are not among the source files. An exit-coded error wraps an underlying
  error with an integer exit code, an invalid-argument error wraps its delegate, and both
  take part in chain unwrapping: each has an \<^verbatim>\<open>Unwrap\<close> that returns the wrapped error. A
  nil pointer wraps nothing: the walk of \<^verbatim>\<open>errors.As\<close> ends at it.
\<close>

datatype err =
    is_errorString: ErrorString string
  | is_fmtWrapError: FmtWrapError string err
  | is_joinError: JoinError "err list"
  | is_appError: AppError int err
  | is_nilAppError: NilAppError
  | is_invalidArgumentError: InvalidArgumentError err

text \<open>
  \<^verbatim>\<open>errors.As(err, &target)\<close> for a non-nil \<open>err\<close>: the type test \<open>T\<close> stands for "is assignable
  to the type of the target". The walk is the standard library's: test the error itself,
  then follow \<^verbatim>\<open>Unwrap() error\<close>, or try the elements of \<^verbatim>\<open>Unwrap() []error\<close> from left to
  right, depth first. The result is the error stored in the target, \<open>None\<close> when \<^verbatim>\<open>As\<close>
  returns false. The test looks at the type only, so a nil pointer of the target's type
  is found and stored like any other.
\<close>

fun errors_As :: "(err \<Rightarrow> bool) \<Rightarrow> err \<Rightarrow> err option"
  and errors_As_each :: "(err \<Rightarrow> bool) \<Rightarrow> err list \<Rightarrow> err option" where
  "errors_As T (ErrorString s) = (if T (ErrorString s) then Some (ErrorString s) else None)"
| "errors_As T (FmtWrapError s e) =
     (if T (FmtWrapError s e) then Some (FmtWrapError s e) else errors_As T e)"
| "errors_As T (JoinError es) =
     (if T (JoinError es) then Some (JoinError es) else errors_As_each T es)"
| "errors_As T (AppError c e) = (if T (AppError c e) then Some (AppError c e) else errors_As T e)"
| "errors_As T NilAppError = (if T NilAppError then Some NilAppError else None)"
| "errors_As T (InvalidArgumentError e) =
     (if T (InvalidArgumentError e) then Some (InvalidArgumentError e) else errors_As T e)"
| "errors_As_each T [] = None"
| "errors_As_each T (e # es) =
     (case errors_As T e of Some found \<Rightarrow> Some found | None \<Rightarrow> errors_As_each T es)"







section \<open>Process containers (package app)\<close>

text \<open>
  A Go \<^verbatim>\<open>map[string]string\<close> is an association list with distinct keys; the order of the
  list is the order in which one \<^verbatim>\<open>range\<close> over the map happens to visit it, which Go
  leaves unspecified. Statements about maps carry \<open>distinct (map fst m)\<close> and hold for
  every order. Strings are byte strings, as in Go.
\<close>

type_synonym gomap = "(string \<times> string) list"

text \<open>
  Modelled from the spec: the struct behind \<^verbatim>\<open>EnvContainer\<close>, its constructor
  \<^verbatim>\<open>newEnvContainer\<close> and its methods \<^verbatim>\<open>Env\<close> and \<^verbatim>\<open>ForEachEnv\<close> are not among the source
  files. The environment facet is a mapping from variable name to value in which empty
  values are treated as absent: the constructor keeps the entries with a non-empty
  value, point lookup returns the empty string for an absent key, and enumeration never
  yields an entry with an empty value. \<open>ForEachEnv\<close> threads the state that the Go
  callback mutates.
\<close>

datatype envContainer = MkEnvContainer (variables: gomap)

definition newEnvContainer :: "gomap \<Rightarrow> envContainer" where
  "newEnvContainer m = MkEnvContainer (filter (\<lambda>(k, v). v \<noteq> []) m)"

definition Env :: "envContainer \<Rightarrow> string \<Rightarrow> string" where
  "Env e k = (case map_of (variables e) k of Some v \<Rightarrow> v | None \<Rightarrow> [])"

definition ForEachEnv :: "envContainer \<Rightarrow> (string \<Rightarrow> string \<Rightarrow> 's \<Rightarrow> 's) \<Rightarrow> 's \<Rightarrow> 's" where
  "ForEachEnv e f s = fold (\<lambda>(k, v) s. if v \<noteq> [] then f k v s else s) (variables e) s"

text \<open>The exported constructor, as in the source.\<close>

definition NewEnvContainer :: "gomap \<Rightarrow> envContainer" where
  "NewEnvContainer m = newEnvContainer m"

text \<open>
  \<^verbatim>\<open>Environ\<close> appends \<^verbatim>\<open>key+"="+value\<close> for every enumerated entry and sorts the slice with
  \<^verbatim>\<open>sort.Strings\<close>, which orders strings bytewise; that is the lexicographic order on
  \<open>char list\<close> with characters ordered by their code.
\<close>

definition Environ :: "envContainer \<Rightarrow> string list" where
  "Environ envContainer =
     sort (ForEachEnv envContainer (\<lambda>k v environ. environ @ [k @ ''='' @ v]) [])"

text \<open>
  \<^verbatim>\<open>EnvironMap\<close> builds a fresh map and stores an entry only if its value is not empty
  (the source checks again, "just to make sure"). The result map is read by key only, so
  it is a HOL map.
\<close>

definition EnvironMap :: "envContainer \<Rightarrow> (string \<rightharpoonup> string)" where
  "EnvironMap envContainer =
     ForEachEnv envContainer (\<lambda>k v m. if v \<noteq> [] then m(k \<mapsto> v) else m) Map.empty"

text \<open>
  Modelled from the spec: \<^verbatim>\<open>newArgContainer\<close> and the methods of the struct behind
  \<^verbatim>\<open>ArgContainer\<close> are not among the source files. The argument facet is an ordered,
  indexable sequence of strings; an index out of range is a panic, which is \<open>None\<close> here.
\<close>

datatype argContainer = MkArgContainer (argValues: "string list")

definition newArgContainer :: "string list \<Rightarrow> argContainer" where
  "newArgContainer args = MkArgContainer args"

definition NumArgs :: "argContainer \<Rightarrow> int" where
  "NumArgs a = int (length (argValues a))"

definition Arg :: "argContainer \<Rightarrow> int \<Rightarrow> string option" where
  "Arg a i = (if i < 0 \<or> i \<ge> NumArgs a then None else Some (argValues a ! nat i))"

definition NewArgContainer :: "string list \<Rightarrow> argContainer" where
  "NewArgContainer args = newArgContainer args"

text \<open>
  \<^verbatim>\<open>Args\<close> reads \<^verbatim>\<open>Arg(i)\<close> for \<open>i\<close> from 0 up to \<^verbatim>\<open>NumArgs()\<close>; a panic of one read is a panic
  of the whole call.
\<close>

definition Args :: "argContainer \<Rightarrow> string list option" where
  "Args argList = those (map (\<lambda>i. Arg argList (int i)) [0..<nat (NumArgs argList)])"

text \<open>
  An \<^verbatim>\<open>io.Reader\<close> or \<^verbatim>\<open>io.Writer\<close> held by a container is a reference to a stream outside
  of it. A stream is named by a number; two facets that hold the same number share the
  stream. The state of the streams is kept in \<open>io_state\<close>: the bytes each writer has
  accepted, and, for a writer that fails, the error its \<^verbatim>\<open>Write\<close> returns (a failing
  \<^verbatim>\<open>Write\<close> accepts nothing).
\<close>

type_synonym reader = nat
type_synonym writer = nat

record io_state =
  written :: "writer \<Rightarrow> string"
  broken :: "writer \<Rightarrow> err option"

definition Write :: "writer \<Rightarrow> string \<Rightarrow> io_state \<Rightarrow> io_state \<times> err option" where
  "Write w bytes io =
     (case broken io w of
        Some e \<Rightarrow> (io, Some e)
      | None \<Rightarrow> (io\<lparr>written := (written io)(w := written io w @ bytes)\<rparr>, None))"

text \<open>
  Modelled from the spec: \<^verbatim>\<open>newContainer\<close> and the struct it returns are not among the
  source files. A full container is the conjunction of the facets, each answering with
  the facet container it was built from. A \<^verbatim>\<open>Container\<close> passed where one facet's
  interface is expected answers with its own facet, so the conversion is the field
  selection. The fields \<open>Stdin\<close>, \<open>Stdout\<close> and \<open>Stderr\<close> are the methods of the same name.
\<close>

record container =
  envFacet :: envContainer
  Stdin :: reader
  Stdout :: writer
  Stderr :: writer
  argFacet :: argContainer

definition newContainer ::
  "envContainer \<Rightarrow> reader \<Rightarrow> writer \<Rightarrow> writer \<Rightarrow> argContainer \<Rightarrow> container" where
  "newContainer envContainer stdinContainer stdoutContainer stderrContainer argContainer =
     \<lparr>envFacet = envContainer, Stdin = stdinContainer, Stdout = stdoutContainer,
      Stderr = stderrContainer, argFacet = argContainer\<rparr>"

definition NewContainerForArgs :: "container \<Rightarrow> string list \<Rightarrow> container" where
  "NewContainerForArgs container newArgs =
     newContainer (envFacet container) (Stdin container) (Stdout container) (Stderr container)
       (NewArgContainer newArgs)"

section \<open>Application names (package appext)\<close>

text \<open>
  \<^verbatim>\<open>validateAppName\<close> ranges over the runes of the name. Every rune it accepts is a single
  ASCII byte, and every byte of a longer or invalid encoding belongs to a rune it
  rejects, so the check is the same byte by byte.
\<close>

definition isLetterOrDigit :: "char \<Rightarrow> bool" where
  "isLetterOrDigit c \<longleftrightarrow>
     (c \<ge> CHR ''a'' \<and> c \<le> CHR ''z'') \<or> (c \<ge> CHR ''A'' \<and> c \<le> CHR ''Z'')
     \<or> (c \<ge> CHR ''0'' \<and> c \<le> CHR ''9'')"

fun validateRunes :: "string \<Rightarrow> string \<Rightarrow> err option" where
  "validateRunes appName [] = None"
| "validateRunes appName (c # cs) =
     (if \<not> (isLetterOrDigit c \<or> c = CHR ''-'' \<or> c = CHR ''_'')
      then Some (ErrorString (''invalid application name: '' @ appName))
      else validateRunes appName cs)"

definition validateAppName :: "string \<Rightarrow> err option" where
  "validateAppName appName =
     (if appName = [] then Some (ErrorString ''empty application name'')
      else validateRunes appName appName)"

text \<open>
  \<^verbatim>\<open>strings.ReplaceAll\<close> for a pattern and a replacement of one byte each, and
  \<^verbatim>\<open>strings.ToUpper\<close> on ASCII strings (the only ones \<^verbatim>\<open>validateAppName\<close> lets through): a
  lower-case letter moves down by \<^verbatim>\<open>'a' - 'A'\<close>, every other byte stays.
\<close>

definition ReplaceAll :: "string \<Rightarrow> char \<Rightarrow> char \<Rightarrow> string" where
  "ReplaceAll s old new = map (\<lambda>c. if c = old then new else c) s"

definition toUpperByte :: "char \<Rightarrow> char" where
  "toUpperByte c =
     (if CHR ''a'' \<le> c \<and> c \<le> CHR ''z'' then char_of (of_char c - (32::nat)) else c)"

definition ToUpper :: "string \<Rightarrow> string" where
  "ToUpper s = map toUpperByte s"

definition getAppNameEnvPrefix :: "string \<Rightarrow> string" where
  "getAppNameEnvPrefix appName = ToUpper (ReplaceAll appName (CHR ''-'') (CHR ''_'')) @ ''_''"

text \<open>
  The key that \<^verbatim>\<open>getDirPath\<close> and \<^verbatim>\<open>getPort\<close> look up in the environment: the prefix
  followed by \<^verbatim>\<open>CONFIG_DIR\<close>, \<^verbatim>\<open>CACHE_DIR\<close>, \<^verbatim>\<open>DATA_DIR\<close> or \<^verbatim>\<open>PORT\<close>.
\<close>

definition appEnvKey :: "string \<Rightarrow> string \<Rightarrow> string" where
  "appEnvKey appName envSuffix = getAppNameEnvPrefix appName @ envSuffix"

text \<open>
  The prefix as the specification words it, for comparison with the source: the name
  upper-cased, every run of non-alphanumeric characters collapsed to a single underscore,
  and an underscore appended.
\<close>

fun collapse_runs :: "string \<Rightarrow> string" where
  "collapse_runs [] = []"
| "collapse_runs [c] = (if isLetterOrDigit c then [c] else ''_'')"
| "collapse_runs (c # d # cs) =
     (if isLetterOrDigit c then c # collapse_runs (d # cs)
      else if isLetterOrDigit d then CHR ''_'' # collapse_runs (d # cs)
      else collapse_runs (d # cs))"

definition spec_env_prefix :: "string \<Rightarrow> string" where
  "spec_env_prefix appName = collapse_runs (ToUpper appName) @ ''_''"

section \<open>Commands (package appcmd)\<close>

subsection \<open>The command-line library, as far as this package drives it\<close>

text \<open>
  The package compiles a \<^verbatim>\<open>Command\<close> tree into a tree of \<^verbatim>\<open>*cobra.Command\<close> and lets the
  library run it. The library is an external collaborator: what it computes is a
  parameter of the model, what this package stores into it is modelled.

  A \<^verbatim>\<open>*cobra.Command\<close> is a pointer. \<^verbatim>\<open>&cobra.Command{...}\<close> allocates a fresh one; the model
  numbers the allocations with a counter that is threaded through the build, and the
  number is the address of the command. The closures that the build installs capture
  the pointer and call \<^verbatim>\<open>UsageString()\<close> on it when they run. What the library renders for
  the command at an address is given by \<open>UsageString\<close>; \<open>helpTreeString\<close> is the listing that
  \<^verbatim>\<open>helpTreeString(cmd)\<close> of this package renders through the library's accessors
  (\<^verbatim>\<open>Name\<close>, \<^verbatim>\<open>Commands\<close>, \<^verbatim>\<open>Hidden\<close>, \<^verbatim>\<open>Short\<close>). No statement below depends on what the two
  strings are.
\<close>

record cobra_view =
  UsageString :: "nat \<Rightarrow> string"
  helpTreeString :: "nat \<Rightarrow> string"

text \<open>
  While the tree runs, the state is the state of the streams together with the variable
  \<^verbatim>\<open>runErr\<close> of \<^verbatim>\<open>run\<close>, which every closure reaches through \<^verbatim>\<open>runErrAddr\<close>: one slot shared
  by the whole tree.

  A \<^verbatim>\<open>Run\<close> function of the library has the type \<^verbatim>\<open>func(cmd *cobra.Command, args []string)\<close>.
  The model adds what the closure reads from its surroundings: the library's view, and
  the values of the boolean variables that the flags of this command are bound to
  (\<^verbatim>\<open>doVersion\<close>, \<^verbatim>\<open>helpTree\<close>), by flag name, as the library has set them when it calls
  \<^verbatim>\<open>Run\<close>. The result \<open>None\<close> is a panic.
\<close>

type_synonym run_state = "io_state \<times> err option"

type_synonym cobra_run =
  "cobra_view \<Rightarrow> (string \<Rightarrow> bool) \<Rightarrow> nat \<Rightarrow> string list \<Rightarrow> run_state \<Rightarrow> run_state option"

text \<open>
  The fields of \<^verbatim>\<open>cobra.Command\<close> that the statements below read. \<open>cFlags\<close> lists the names
  of the flags that this package adds to the command's own flag set; \<open>cOut\<close>, \<open>cErr\<close>,
  \<open>cIn\<close> and \<open>cArgs\<close> are what \<^verbatim>\<open>SetOut\<close>, \<^verbatim>\<open>SetErr\<close>, \<^verbatim>\<open>SetIn\<close> and \<^verbatim>\<open>SetArgs\<close> store. Left out,
  because the package only hands them over to the library: aliases, the positional
  argument validator, the deprecation text, the trimmed short and long texts, the help
  template and help function, and the flag-binding and flag-normalisation callbacks.
\<close>

record cobra_attrs =
  cAddr :: nat
  cUse :: string
  cHidden :: bool
  cRun :: "cobra_run option"
  cFlags :: "string list"
  cSilenceErrors :: bool
  cDisableDefaultCmd :: bool
  cOut :: "writer option"
  cErr :: "writer option"
  cIn :: "reader option"
  cArgs :: "string list option"

datatype cobra_command = CobraCommand (attrs: cobra_attrs) (Commands: "cobra_command list")

text \<open>An assignment to fields of a command, and \<^verbatim>\<open>AddCommand\<close>.\<close>

definition modify :: "(cobra_attrs \<Rightarrow> cobra_attrs) \<Rightarrow> cobra_command \<Rightarrow> cobra_command" where
  "modify f cmd = CobraCommand (f (attrs cmd)) (Commands cmd)"

definition AddCommand :: "cobra_command \<Rightarrow> cobra_command \<Rightarrow> cobra_command" where
  "AddCommand cmd sub = CobraCommand (attrs cmd) (Commands cmd @ [sub])"

text \<open>Calling a function value: a call of \<^verbatim>\<open>nil\<close> panics.\<close>

definition call :: "cobra_run option \<Rightarrow> cobra_run" where
  "call f = (case f of None \<Rightarrow> (\<lambda>view flags cmd args st. None) | Some g \<Rightarrow> g)"

text \<open>
  The rest of the library that \<^verbatim>\<open>run\<close> calls: \<^verbatim>\<open>Execute\<close> on the root command, which runs the
  tree against the state and returns the library's own error, and the generators that
  the synthetic commands delegate to (the first argument is the address of the root
  command).
\<close>

record cobra_lib =
  Execute :: "cobra_command \<Rightarrow> run_state \<Rightarrow> (run_state \<times> err option) option"
  GenBashCompletion :: "nat \<Rightarrow> writer \<Rightarrow> io_state \<Rightarrow> (io_state \<times> err option) option"
  GenFishCompletion :: "nat \<Rightarrow> writer \<Rightarrow> bool \<Rightarrow> io_state \<Rightarrow> (io_state \<times> err option) option"
  GenPowerShellCompletion :: "nat \<Rightarrow> writer \<Rightarrow> io_state \<Rightarrow> (io_state \<times> err option) option"
  GenZshCompletion :: "nat \<Rightarrow> writer \<Rightarrow> io_state \<Rightarrow> (io_state \<times> err option) option"
  GenManTree ::
    "nat \<Rightarrow> string \<Rightarrow> string \<Rightarrow> string \<Rightarrow> io_state \<Rightarrow> (io_state \<times> err option) option"

subsection \<open>The command model and its validation\<close>

text \<open>
  \<^verbatim>\<open>Command.Run\<close> has the type \<^verbatim>\<open>func(context.Context, app.Container) error\<close>. An action
  reads and writes the streams of its container and returns an error or \<^verbatim>\<open>nil\<close>; \<open>None\<close>
  is a panic. The context is passed through unchanged and left out.

  The fields of \<^verbatim>\<open>Command\<close> that validation and the statements below read; the fields
  left out are those listed above as handed over to the library. \<^verbatim>\<open>SubCommands\<close> is a
  slice of pointers; the model takes them to be non-nil.
\<close>

type_synonym action = "container \<Rightarrow> io_state \<Rightarrow> (io_state \<times> err option) option"

datatype command = Command
  (Use: string) (Short: string) (Long: string) (Hidden: bool)
  (Run: "action option") (SubCommands: "command list")
  (ModifyCobra: "(cobra_command \<Rightarrow> err + cobra_command) option")
  (Version: string)

definition commandValidate :: "command \<Rightarrow> err option" where
  "commandValidate command =
     (if Use command = [] then Some (ErrorString ''must set Command.Use'')
      else if Long command \<noteq> [] \<and> Short command = []
        then Some (ErrorString ''must set Command.Short if Command.Long is set'')
      else if Run command \<noteq> None \<and> length (SubCommands command) > 0
        then Some (ErrorString ''cannot set both Command.Run and Command.SubCommands'')
      else if Run command = None \<and> length (SubCommands command) = 0
        then Some (ErrorString ''must set one of Command.Run and Command.SubCommands'')
      else None)"

subsection \<open>The closures that the build installs\<close>

text \<open>\<^verbatim>\<open>printUsage\<close> writes the usage and a newline to standard error and drops the result.\<close>

definition printUsage :: "container \<Rightarrow> string \<Rightarrow> io_state \<Rightarrow> io_state" where
  "printUsage container usage io = fst (Write (Stderr container) (usage @ [CHR 0x0A]) io)"

text \<open>\<^verbatim>\<open>strings.Join\<close>.\<close>

fun Join :: "string list \<Rightarrow> string \<Rightarrow> string" where
  "Join [] sep = []"
| "Join [a] sep = a"
| "Join (a # b # rest) sep = a @ sep @ Join (b # rest) sep"

text \<open>
  The test \<^verbatim>\<open>errors.As(runErr, &asErr)\<close> with a target of type \<^verbatim>\<open>*invalidArgumentError\<close>;
  \<^verbatim>\<open>errors.As\<close> is false on \<^verbatim>\<open>nil\<close>.
\<close>

definition isInvalidArgument :: "err option \<Rightarrow> bool" where
  "isInvalidArgument runErr =
     (case runErr of None \<Rightarrow> False | Some e \<Rightarrow> errors_As is_invalidArgumentError e \<noteq> None)"

text \<open>
  The \<^verbatim>\<open>Run\<close> of a command with an action: run the action on the container with the
  positional arguments as its arguments, print the usage of the captured command if the
  error is an invalid-argument error, and store the error in the slot.
\<close>

definition leafRun :: "container \<Rightarrow> action \<Rightarrow> nat \<Rightarrow> cobra_run" where
  "leafRun container commandRun cobraCommand =
     (\<lambda>view flags cmd args (io, slot).
        case commandRun (NewContainerForArgs container args) io of
          None \<Rightarrow> None
        | Some (io', runErr) \<Rightarrow>
            Some (if isInvalidArgument runErr
                  then printUsage container (UsageString view cobraCommand) io' else io',
                  runErr))"

text \<open>
  The \<^verbatim>\<open>Run\<close> of a command with sub-commands: print the usage of the captured command and
  store one of two errors. The format string of \<^verbatim>\<open>fmt.Errorf\<close> is constant and has no \<^verbatim>\<open>%w\<close>.
\<close>

definition subCommandRun :: "container \<Rightarrow> nat \<Rightarrow> cobra_run" where
  "subCommandRun container cobraCommand =
     (\<lambda>view flags cmd args (io, slot).
        let io' = printUsage container (UsageString view cobraCommand) io in
        if length args = 0 then Some (io', Some (ErrorString ''Sub-command required.''))
        else Some (io', Some (ErrorString (''Unknown sub-command: '' @ Join args '' ''))))"

text \<open>
  \<^verbatim>\<open>addHelpTreeFlag\<close> and the version block of \<^verbatim>\<open>commandToCobra\<close> add a boolean flag and wrap
  the \<^verbatim>\<open>Run\<close> found on the command: with the flag set, write to standard output, store the
  result of the write in the slot and return; otherwise call the old \<^verbatim>\<open>Run\<close>.
\<close>

definition addHelpTreeFlag :: "container \<Rightarrow> cobra_command \<Rightarrow> cobra_command" where
  "addHelpTreeFlag container cmd =
     (let oldRun = cRun (attrs cmd) in
      modify (\<lambda>f. f\<lparr>cFlags := cFlags f @ [''help-tree''],
                     cRun := Some (\<lambda>view flags cmd args (io, slot).
                       if flags ''help-tree''
                       then Some (Write (Stdout container) (helpTreeString view cmd) io)
                       else call oldRun view flags cmd args (io, slot))\<rparr>) cmd)"

definition addVersionFlag :: "container \<Rightarrow> string \<Rightarrow> cobra_command \<Rightarrow> cobra_command" where
  "addVersionFlag container version cobraCommand =
     (let oldRun = cRun (attrs cobraCommand) in
      modify (\<lambda>f. f\<lparr>cFlags := cFlags f @ [''version''],
                     cRun := Some (\<lambda>view flags cmd args (io, slot).
                       if flags ''version''
                       then Some (Write (Stdout container) (version @ [CHR 0x0A]) io)
                       else call oldRun view flags cmd args (io, slot))\<rparr>) cobraCommand)"

subsection \<open>The build\<close>

text \<open>
  \<^verbatim>\<open>commandToCobra\<close>, in the order of the source: validate; allocate the command (address
  \<open>next\<close>); install the action's \<^verbatim>\<open>Run\<close> if there is an action; if there are sub-commands,
  install the sub-command \<^verbatim>\<open>Run\<close>, build and add every sub-command (the first error
  aborts), and add the help-tree flag; add the version flag if a version is set; silence
  the library's error printing. The result carries the next free address.
  \<open>subCommandsToCobra\<close> is the loop over the sub-commands.
\<close>

fun commandToCobra :: "container \<Rightarrow> command \<Rightarrow> nat \<Rightarrow> err + cobra_command \<times> nat"
  and subCommandsToCobra ::
    "container \<Rightarrow> command list \<Rightarrow> cobra_command \<Rightarrow> nat \<Rightarrow> err + cobra_command \<times> nat" where
  "commandToCobra container (Command use short long hidden runFunc subCommands modifyCobra version)
       next =
     (let command = Command use short long hidden runFunc subCommands modifyCobra version in
      case commandValidate command of
        Some err \<Rightarrow> Inl err
      | None \<Rightarrow>
          (let cobraCommand = CobraCommand
                 \<lparr>cAddr = next, cUse = use, cHidden = hidden, cRun = None, cFlags = [],
                  cSilenceErrors = False, cDisableDefaultCmd = False,
                  cOut = None, cErr = None, cIn = None, cArgs = None\<rparr> [];
               cobraCommand =
                 (case runFunc of
                    Some commandRun \<Rightarrow>
                      modify (\<lambda>f. f\<lparr>cRun := Some (leafRun container commandRun next)\<rparr>) cobraCommand
                  | None \<Rightarrow> cobraCommand);
               built =
                 (if length subCommands > 0
                  then (case subCommandsToCobra container subCommands
                               (modify (\<lambda>f. f\<lparr>cRun := Some (subCommandRun container next)\<rparr>)
                                  cobraCommand)
                               (Suc next) of
                          Inl err \<Rightarrow> Inl err
                        | Inr (cobraCommand, next') \<Rightarrow>
                            Inr (addHelpTreeFlag container cobraCommand, next'))
                  else Inr (cobraCommand, Suc next))
           in case built of
                Inl err \<Rightarrow> Inl err
              | Inr (cobraCommand, next') \<Rightarrow>
                  (let cobraCommand =
                         (if version \<noteq> [] then addVersionFlag container version cobraCommand
                          else cobraCommand)
                   in Inr (modify (\<lambda>f. f\<lparr>cSilenceErrors := True\<rparr>) cobraCommand, next'))))"
| "subCommandsToCobra container [] cobraCommand next = Inr (cobraCommand, next)"
| "subCommandsToCobra container (subCommand # rest) cobraCommand next =
     (case commandToCobra container subCommand next of
        Inl err \<Rightarrow> Inl err
      | Inr (subCobraCommand, next') \<Rightarrow>
          subCommandsToCobra container rest (AddCommand cobraCommand subCobraCommand) next')"

subsection \<open>Running a command tree\<close>

text \<open>
  The two synthetic commands that \<^verbatim>\<open>run\<close> adds to a root with sub-commands. Their actions
  call the library's generators on the root command; \<^verbatim>\<open>container.Arg(0)\<close> panics without an
  argument.
\<close>

definition completionCommand :: "cobra_lib \<Rightarrow> nat \<Rightarrow> command" where
  "completionCommand lib cobraCommand =
     Command ''completion'' ''Generate auto-completion scripts for commonly used shells'' [] False
       None
       [Command ''bash'' ''Generate auto-completion scripts for bash'' [] False
          (Some (\<lambda>container. GenBashCompletion lib cobraCommand (Stdout container))) [] None [],
        Command ''fish'' ''Generate auto-completion scripts for fish'' [] False
          (Some (\<lambda>container. GenFishCompletion lib cobraCommand (Stdout container) True)) [] None [],
        Command ''powershell'' ''Generate auto-completion scripts for powershell'' [] False
          (Some (\<lambda>container. GenPowerShellCompletion lib cobraCommand (Stdout container))) [] None [],
        Command ''zsh'' ''Generate auto-completion scripts for zsh'' [] False
          (Some (\<lambda>container. GenZshCompletion lib cobraCommand (Stdout container))) [] None []]
       None []"

definition manpagesCommand :: "cobra_lib \<Rightarrow> nat \<Rightarrow> command" where
  "manpagesCommand lib cobraCommand =
     Command ''manpages'' [] [] True
       (Some (\<lambda>container io.
          case Arg (argFacet container) 0 of
            None \<Rightarrow> None
          | Some dir \<Rightarrow> GenManTree lib cobraCommand ''Buf'' ''1'' dir io))
       [] None []"

text \<open>\<^verbatim>\<open>strings.HasPrefix\<close>.\<close>

definition HasPrefix :: "string \<Rightarrow> string \<Rightarrow> bool" where
  "HasPrefix s pre \<longleftrightarrow> take (length pre) s = pre"

text \<open>
  \<^verbatim>\<open>run\<close> up to the call of \<^verbatim>\<open>Execute\<close>: build the tree (the first allocation has address
  0), disable the library's default completion command, add the synthetic commands to a
  root with sub-commands, apply \<^verbatim>\<open>ModifyCobra\<close>, set the output to standard error, take the
  arguments without the first (the slice expression \<^verbatim>\<open>[1:]\<close> panics on an empty slice),
  set the output to standard output if the first of the remaining arguments starts with
  \<^verbatim>\<open>__complete\<close>, and set the arguments, the error output and the input. The result is
  the error that \<^verbatim>\<open>run\<close> returns early, a panic, or the root command as \<^verbatim>\<open>Execute\<close> receives
  it.
\<close>

datatype prepared = Failed err | Panics | Ready cobra_command

definition prepare :: "cobra_lib \<Rightarrow> container \<Rightarrow> command \<Rightarrow> prepared" where
  "prepare lib container command =
     (case commandToCobra container command 0 of
        Inl err \<Rightarrow> Failed err
      | Inr (cobraCommand, next) \<Rightarrow>
          (let cobraCommand = modify (\<lambda>f. f\<lparr>cDisableDefaultCmd := True\<rparr>) cobraCommand;
               root = cAddr (attrs cobraCommand);
               extended =
                 (if length (SubCommands command) > 0
                  then (case commandToCobra container (completionCommand lib root) next of
                          Inl err \<Rightarrow> Inl err
                        | Inr (shellCobraCommand, next') \<Rightarrow>
                            (case commandToCobra container (manpagesCommand lib root) next' of
                               Inl err \<Rightarrow> Inl err
                             | Inr (manpagesCobraCommand, next'') \<Rightarrow>
                                 Inr (AddCommand (AddCommand cobraCommand shellCobraCommand)
                                        manpagesCobraCommand)))
                  else Inr cobraCommand)
           in case extended of
                Inl err \<Rightarrow> Failed err
              | Inr cobraCommand \<Rightarrow>
                  (case (case ModifyCobra command of
                           None \<Rightarrow> Inr cobraCommand
                         | Some f \<Rightarrow> f cobraCommand) of
                     Inl err \<Rightarrow> Failed err
                   | Inr cobraCommand \<Rightarrow>
                       (let cobraCommand =
                              modify (\<lambda>f. f\<lparr>cOut := Some (Stderr container)\<rparr>) cobraCommand
                        in case Args (argFacet container) of
                             None \<Rightarrow> Panics
                           | Some [] \<Rightarrow> Panics
                           | Some (arg0 # args) \<Rightarrow>
                               (let cobraCommand =
                                      (if length args > 0 \<and> HasPrefix (hd args) ''__complete''
                                       then modify (\<lambda>f. f\<lparr>cOut := Some (Stdout container)\<rparr>)
                                              cobraCommand
                                       else cobraCommand);
                                    cobraCommand =
                                      modify (\<lambda>f. f\<lparr>cArgs := Some args\<rparr>) cobraCommand;
                                    cobraCommand =
                                      modify (\<lambda>f. f\<lparr>cErr := Some (Stderr container)\<rparr>) cobraCommand;
                                    cobraCommand =
                                      modify (\<lambda>f. f\<lparr>cIn := Some (Stdin container)\<rparr>) cobraCommand
                                in Ready cobraCommand)))))"

text \<open>
  \<^verbatim>\<open>run\<close>: the slot \<^verbatim>\<open>runErr\<close> starts as \<^verbatim>\<open>nil\<close>; an error of \<^verbatim>\<open>Execute\<close> is returned at once,
  otherwise the content of the slot is returned. A panic ends the call; the streams are
  then reported as they were when \<^verbatim>\<open>run\<close> was called, and no statement reads them.
\<close>

datatype outcome = Panicked | Returned "err option"

definition run :: "cobra_lib \<Rightarrow> container \<Rightarrow> command \<Rightarrow> io_state \<Rightarrow> io_state \<times> outcome" where
  "run lib container command io =
     (case prepare lib container command of
        Failed err \<Rightarrow> (io, Returned (Some err))
      | Panics \<Rightarrow> (io, Panicked)
      | Ready cobraCommand \<Rightarrow>
          (case Execute lib cobraCommand (io, None) of
             None \<Rightarrow> (io, Panicked)
           | Some ((io', runErr), Some err) \<Rightarrow> (io', Returned (Some err))
           | Some ((io', runErr), None) \<Rightarrow> (io', Returned runErr)))"

section \<open>Specification devices\<close>

text \<open>
  None of the following is a function of the source. \<open>nodes\<close> lists the nodes of a command
  tree and \<open>subtrees\<close> those of a compiled tree, both parent first and then the children
  from left to right; \<open>addrs\<close> lists the addresses of a compiled tree in the same order;
  \<open>compiled\<close> relates a command to a command that \<^verbatim>\<open>commandToCobra\<close> returns for it.
  \<open>initial\<close> is the command that \<^verbatim>\<open>commandToCobra\<close> has built when it reaches the test for
  sub-commands, and \<open>finish\<close> is what it does after that block.
\<close>

fun nodes :: "command \<Rightarrow> command list" where
  "nodes (Command use short long hidden runFunc subCommands modifyCobra version) =
     Command use short long hidden runFunc subCommands modifyCobra version
       # concat (map nodes subCommands)"

fun subtrees :: "cobra_command \<Rightarrow> cobra_command list" where
  "subtrees (CobraCommand f subs) = CobraCommand f subs # concat (map subtrees subs)"

definition addrs :: "cobra_command \<Rightarrow> nat list" where
  "addrs cc = map (\<lambda>y. cAddr (attrs y)) (subtrees cc)"

definition compiled :: "container \<Rightarrow> command \<Rightarrow> cobra_command \<Rightarrow> bool" where
  "compiled container x y \<longleftrightarrow> (\<exists>k k'. commandToCobra container x k = Inr (y, k'))"

definition initial :: "container \<Rightarrow> command \<Rightarrow> nat \<Rightarrow> cobra_command" where
  "initial container c n =
     (let cobraCommand = CobraCommand
            \<lparr>cAddr = n, cUse = Use c, cHidden = Hidden c, cRun = None, cFlags = [],
             cSilenceErrors = False, cDisableDefaultCmd = False,
             cOut = None, cErr = None, cIn = None, cArgs = None\<rparr> []
      in case Run c of
           Some commandRun \<Rightarrow>
             modify (\<lambda>f. f\<lparr>cRun := Some (leafRun container commandRun n)\<rparr>) cobraCommand
         | None \<Rightarrow> cobraCommand)"

definition finish :: "container \<Rightarrow> command \<Rightarrow> cobra_command \<Rightarrow> cobra_command" where
  "finish container c cobraCommand =
     modify (\<lambda>f. f\<lparr>cSilenceErrors := True\<rparr>)
       (if Version c \<noteq> [] then addVersionFlag container (Version c) cobraCommand
        else cobraCommand)"

section \<open>Example inputs\<close>

text \<open>
  A container with standard input 0, standard output 1 and standard error 2; streams
  that have accepted nothing and do not fail; a library view that renders the usage of
  a command from its address; an action that rejects its arguments; a command tree with
  two leaves; a tree whose root has one child that is itself a parent of two leaves; a
  tree whose second leaf has a long text without a short one; a library that does
  nothing.
\<close>

definition exampleContainer :: "string list \<Rightarrow> container" where
  "exampleContainer args = newContainer (NewEnvContainer []) 0 1 2 (NewArgContainer args)"

definition exampleIO :: io_state where
  "exampleIO = \<lparr>written = (\<lambda>w. []), broken = (\<lambda>w. None)\<rparr>"

definition exampleView :: cobra_view where
  "exampleView =
     \<lparr>UsageString = (\<lambda>a. ''usage of command '' @ replicate a (CHR ''I'')),
      helpTreeString = (\<lambda>a. ''tree'')\<rparr>"

definition rejectArgs :: action where
  "rejectArgs = (\<lambda>container io.
     Some (io, Some (InvalidArgumentError (ErrorString ''unexpected argument''))))"

definition exampleTree :: command where
  "exampleTree =
     Command ''app'' ''An application'' [] False None
       [Command ''lint'' ''Lint'' [] False (Some rejectArgs) [] None [],
        Command ''format'' ''Format'' [] False (Some rejectArgs) [] None ''1.2.3'']
       None ''0.1.0''"


definition brokenTree :: command where
  "brokenTree =
     Command ''app'' ''An application'' [] False None
       [Command ''lint'' ''Lint'' [] False (Some rejectArgs) [] None [],
        Command ''format'' [] ''Formats the files'' False (Some rejectArgs) [] None []]
       None []"

definition exampleLib :: cobra_lib where
  "exampleLib =
     \<lparr>Execute = (\<lambda>cobraCommand st. Some (st, None)),
      GenBashCompletion = (\<lambda>cobraCommand w io. Some (io, None)),
      GenFishCompletion = (\<lambda>cobraCommand w includeDesc io. Some (io, None)),
      GenPowerShellCompletion = (\<lambda>cobraCommand w io. Some (io, None)),
      GenZshCompletion = (\<lambda>cobraCommand w io. Some (io, None)),
      GenManTree = (\<lambda>cobraCommand title section dir io. Some (io, None))\<rparr>"

section \<open>Properties of the exit-code protocol\<close>











section \<open>Properties of the process containers\<close>

lemma fold_append_filter:
  "fold (\<lambda>kv s. if P kv then s @ [g kv] else s) kvs acc = acc @ map g (filter P kvs)"
  by (induction kvs arbitrary: acc) auto

lemma Environ_eq:
  "Environ e =
     sort (map (\<lambda>(k, v). k @ ''='' @ v) (filter (\<lambda>(k, v). v \<noteq> []) (variables e)))"
  by (simp add: Environ_def ForEachEnv_def case_prod_unfold fold_append_filter)

text \<open>
  C8. \<^verbatim>\<open>Environ\<close> is sorted, and its entries are exactly the strings \<^verbatim>\<open>KEY=VALUE\<close> of the
  variables with a non-empty value, one per variable: no entry comes from a variable
  whose value is empty.
\<close>

theorem Environ_sorted_nonempty:
  "sorted (Environ e)
   \<and> set (Environ e) = {k @ ''='' @ v | k v. (k, v) \<in> set (variables e) \<and> v \<noteq> []}
   \<and> length (Environ e) = length (filter (\<lambda>(k, v). v \<noteq> []) (variables e))"
proof -
  have "set (Environ e) = {k @ ''='' @ v | k v. (k, v) \<in> set (variables e) \<and> v \<noteq> []}"
    unfolding Environ_eq by force
  then show ?thesis
    by (simp add: Environ_eq)
qed

theorem Environ_sorted_nonempty_witness:
  "Environ (NewEnvContainer [(''B'', ''2''), (''C'', ''''), (''A'', ''1'')]) = [''A=1'', ''B=2'']
   \<and> sorted [''A=1'', ''B=2'']"
proof -
  have v: "Environ (NewEnvContainer [(''B'', ''2''), (''C'', ''''), (''A'', ''1'')])
      = [''A=1'', ''B=2'']"
    by code_simp
  from Environ_sorted_nonempty [of "NewEnvContainer [(''B'', ''2''), (''C'', ''''), (''A'', ''1'')]"]
  show ?thesis
    unfolding v by simp
qed

lemma fold_update_filter:
  "fold (\<lambda>kv m. if P kv then m(fst kv \<mapsto> snd kv) else m) kvs m0
     = m0 ++ map_of (rev (filter P kvs))"
  by (induction kvs arbitrary: m0) (auto simp: fun_eq_iff map_add_def split: option.splits)

lemma if_twice: "(if b then (if b then x else y) else y) = (if b then x else y)"
  by simp

lemma EnvironMap_eq:
  "EnvironMap e = map_of (rev (filter (\<lambda>(k, v). v \<noteq> []) (variables e)))"
  by (simp add: EnvironMap_def ForEachEnv_def case_prod_unfold if_twice fold_update_filter)

lemma map_of_rev_distinct:
  "distinct (map fst xs) \<Longrightarrow> map_of (rev xs) = map_of xs"
proof (induction xs)
  case Nil
  show ?case by simp
next
  case (Cons kv xs)
  obtain a b where kv: "kv = (a, b)" by (cases kv)
  from Cons.prems kv have none: "map_of xs a = None"
    by (simp add: map_of_eq_None_iff)
  from Cons have ih: "map_of (rev xs) = map_of xs" by simp
  show ?case
    using none by (auto simp: kv ih fun_eq_iff map_add_def split: option.splits)
qed

lemma map_of_filter_nonempty:
  "distinct (map fst m) \<Longrightarrow>
   map_of (filter (\<lambda>(k, v). v \<noteq> []) m) key =
     (case map_of m key of Some v \<Rightarrow> if v = [] then None else Some v | None \<Rightarrow> None)"
  by (induction m) (auto split: option.splits simp: rev_image_eqI map_of_eq_None_iff)

lemma EnvironMap_NewEnvContainer:
  assumes "distinct (map fst m)"
  shows "EnvironMap (NewEnvContainer m) key =
     (case map_of m key of Some v \<Rightarrow> if v = [] then None else Some v | None \<Rightarrow> None)"
proof -
  have d: "distinct (map fst (filter (\<lambda>(k, v). v \<noteq> []) m))"
    using assms by (simp add: distinct_map_filter)
  show ?thesis
    by (simp add: EnvironMap_eq NewEnvContainer_def newEnvContainer_def
        map_of_rev_distinct [OF d] map_of_filter_nonempty [OF assms])
qed

text \<open>
  C9. Building an environment container from a map and enumerating it with
  \<^verbatim>\<open>EnvironMap\<close> gives the map restricted to the keys whose value is not empty, whatever
  the iteration order; and the map with \<^verbatim>\<open>A\<close> set to \<^verbatim>\<open>1\<close> and \<^verbatim>\<open>B\<close> set to the empty string
  gives the map with \<^verbatim>\<open>A\<close> set to \<^verbatim>\<open>1\<close> alone.
\<close>

theorem EnvironMap_roundtrip:
  "(distinct (map fst m) \<longrightarrow>
      EnvironMap (NewEnvContainer m) = map_of m |` {k. map_of m k \<noteq> Some []})
   \<and> EnvironMap (NewEnvContainer [(''A'', ''1''), (''B'', '''')]) = [''A'' \<mapsto> ''1'']"
proof -
  have "EnvironMap (NewEnvContainer m) = map_of m |` {k. map_of m k \<noteq> Some []}"
    if "distinct (map fst m)"
    using EnvironMap_NewEnvContainer [OF that]
    by (auto simp: fun_eq_iff restrict_map_def split: option.splits)
  moreover have "EnvironMap (NewEnvContainer [(''A'', ''1''), (''B'', '''')]) = [''A'' \<mapsto> ''1'']"
    by (simp add: EnvironMap_def NewEnvContainer_def newEnvContainer_def ForEachEnv_def)
  ultimately show ?thesis by blast
qed

theorem EnvironMap_roundtrip_witness:
  "distinct (map fst [(''PATH'', ''/bin''), (''EMPTY'', ''''), (''HOME'', ''/root'')])
   \<and> EnvironMap (NewEnvContainer [(''PATH'', ''/bin''), (''EMPTY'', ''''), (''HOME'', ''/root'')])
       ''PATH'' = Some ''/bin''
   \<and> EnvironMap (NewEnvContainer [(''PATH'', ''/bin''), (''EMPTY'', ''''), (''HOME'', ''/root'')])
       ''EMPTY'' = None"
proof -
  have d: "distinct (map fst [(''PATH'', ''/bin''), (''EMPTY'', ''''), (''HOME'', ''/root'')])"
    by simp
  from EnvironMap_roundtrip [of "[(''PATH'', ''/bin''), (''EMPTY'', ''''), (''HOME'', ''/root'')]"] d
  have "EnvironMap (NewEnvContainer [(''PATH'', ''/bin''), (''EMPTY'', ''''), (''HOME'', ''/root'')])
      = map_of [(''PATH'', ''/bin''), (''EMPTY'', ''''), (''HOME'', ''/root'')]
          |` {k. map_of [(''PATH'', ''/bin''), (''EMPTY'', ''''), (''HOME'', ''/root'')] k \<noteq> Some []}"
    by blast
  then show ?thesis
    by (simp add: restrict_map_def)
qed

lemma those_map_Some: "those (map Some xs) = Some xs"
  by (induction xs) auto

lemma Args_NewArgContainer: "Args (NewArgContainer xs) = Some xs"
proof -
  have "map (\<lambda>i. Arg (MkArgContainer xs) (int i)) [0..<length xs] = map Some xs"
    by (rule nth_equalityI) (simp_all add: Arg_def NumArgs_def)
  then show ?thesis
    by (simp add: Args_def NewArgContainer_def newArgContainer_def NumArgs_def those_map_Some)
qed

text \<open>
  C10. The container that \<^verbatim>\<open>NewContainerForArgs\<close> returns answers every environment,
  stdin, stdout and stderr request as the base container does, and its argument facet
  is the replacement list: \<^verbatim>\<open>NumArgs\<close> is its length, \<^verbatim>\<open>Arg(i)\<close> is its element \<open>i\<close> and
  panics out of range, \<^verbatim>\<open>Args\<close> is the list. The function builds a new value; the base is
  a value the function only reads.
\<close>

theorem NewContainerForArgs_frame:
  "envFacet (NewContainerForArgs c newArgs) = envFacet c
   \<and> Env (envFacet (NewContainerForArgs c newArgs)) k = Env (envFacet c) k
   \<and> Environ (envFacet (NewContainerForArgs c newArgs)) = Environ (envFacet c)
   \<and> EnvironMap (envFacet (NewContainerForArgs c newArgs)) = EnvironMap (envFacet c)
   \<and> Stdin (NewContainerForArgs c newArgs) = Stdin c
   \<and> Stdout (NewContainerForArgs c newArgs) = Stdout c
   \<and> Stderr (NewContainerForArgs c newArgs) = Stderr c
   \<and> NumArgs (argFacet (NewContainerForArgs c newArgs)) = int (length newArgs)
   \<and> Arg (argFacet (NewContainerForArgs c newArgs)) i =
       (if 0 \<le> i \<and> i < int (length newArgs) then Some (newArgs ! nat i) else None)
   \<and> Args (argFacet (NewContainerForArgs c newArgs)) = Some newArgs"
proof -
  have e: "envFacet (NewContainerForArgs c newArgs) = envFacet c"
    by (simp add: NewContainerForArgs_def newContainer_def)
  have a: "argFacet (NewContainerForArgs c newArgs) = NewArgContainer newArgs"
    by (simp add: NewContainerForArgs_def newContainer_def)
  have n: "NumArgs (NewArgContainer newArgs) = int (length newArgs)"
    by (simp add: NumArgs_def NewArgContainer_def newArgContainer_def)
  have i: "Arg (NewArgContainer newArgs) i =
       (if 0 \<le> i \<and> i < int (length newArgs) then Some (newArgs ! nat i) else None)"
    by (simp add: Arg_def NumArgs_def NewArgContainer_def newArgContainer_def)
  have s: "Stdin (NewContainerForArgs c newArgs) = Stdin c
     \<and> Stdout (NewContainerForArgs c newArgs) = Stdout c
     \<and> Stderr (NewContainerForArgs c newArgs) = Stderr c"
    by (simp add: NewContainerForArgs_def newContainer_def)
  show ?thesis
    unfolding e a n i using s Args_NewArgContainer by simp
qed

section \<open>Properties of the environment-variable prefix\<close>

lemma validateRunes_None:
  "validateRunes n s = None \<Longrightarrow> c \<in> set s \<Longrightarrow> isLetterOrDigit c \<or> c = CHR ''-'' \<or> c = CHR ''_''"
  by (induction s) (auto split: if_splits)

lemma toUpperByte_replaced:
  "isLetterOrDigit c \<or> c = CHR ''-'' \<or> c = CHR ''_'' \<Longrightarrow>
   toUpperByte (if c = CHR ''-'' then CHR ''_'' else c) =
     (if isLetterOrDigit c then toUpperByte c else CHR ''_'')"
  by (auto simp: isLetterOrDigit_def toUpperByte_def less_eq_char_def)

lemma getAppNameEnvPrefix_map:
  assumes "validateAppName appName = None"
  shows "getAppNameEnvPrefix appName =
     map (\<lambda>c. if isLetterOrDigit c then toUpperByte c else CHR ''_'') appName @ ''_''"
proof -
  from assms have r: "validateRunes appName appName = None"
    by (simp add: validateAppName_def split: if_splits)
  have "map (toUpperByte \<circ> (\<lambda>c. if c = CHR ''-'' then CHR ''_'' else c)) appName
      = map (\<lambda>c. if isLetterOrDigit c then toUpperByte c else CHR ''_'') appName"
    by (rule map_cong [OF refl]) (use validateRunes_None [OF r] toUpperByte_replaced in auto)
  then show ?thesis
    by (simp add: getAppNameEnvPrefix_def ToUpper_def ReplaceAll_def)
qed

text \<open>
  C7, as stated, fails: the claim says that a run of non-alphanumeric characters becomes
  a single underscore. The name \<^verbatim>\<open>a--b\<close> is a valid application name; the source turns it
  into \<^verbatim>\<open>A__B_\<close>, the claim's wording into \<^verbatim>\<open>A_B_\<close>.
\<close>

theorem getAppNameEnvPrefix_collapse_counterexample:
  "validateAppName ''a--b'' = None
   \<and> getAppNameEnvPrefix ''a--b'' = ''A__B_''
   \<and> spec_env_prefix ''a--b'' = ''A_B_''
   \<and> getAppNameEnvPrefix ''a--b'' \<noteq> spec_env_prefix ''a--b''"
  by code_simp

text \<open>
  C7, amended. For every valid application name the prefix is the name with every
  letter upper-cased and every non-alphanumeric character replaced, one for one, by an
  underscore, followed by one more underscore; the four keys are the prefix followed by
  the suffix. Runs are not collapsed: the prefix is one byte longer than the name.
\<close>

theorem getAppNameEnvPrefix_valid:
  assumes "validateAppName appName = None"
  shows "getAppNameEnvPrefix appName =
           map (\<lambda>c. if isLetterOrDigit c then toUpperByte c else CHR ''_'') appName @ ''_''
         \<and> appEnvKey appName envSuffix =
           map (\<lambda>c. if isLetterOrDigit c then toUpperByte c else CHR ''_'') appName @ ''_''
             @ envSuffix
         \<and> length (getAppNameEnvPrefix appName) = length appName + 1"
  using getAppNameEnvPrefix_map [OF assms] by (simp add: appEnvKey_def)

theorem getAppNameEnvPrefix_valid_witness:
  "validateAppName ''buf-lint_2'' = None
   \<and> getAppNameEnvPrefix ''buf-lint_2'' = ''BUF_LINT_2_''
   \<and> appEnvKey ''buf-lint_2'' ''CONFIG_DIR'' = ''BUF_LINT_2_CONFIG_DIR''"
proof -
  have v: "validateAppName ''buf-lint_2'' = None"
    by code_simp
  have m: "map (\<lambda>c. if isLetterOrDigit c then toUpperByte c else CHR ''_'') ''buf-lint_2''
      = ''BUF_LINT_2''"
    by code_simp
  from getAppNameEnvPrefix_valid [OF v, of "''CONFIG_DIR''"] v show ?thesis
    unfolding m by simp
qed

section \<open>Properties of the command build\<close>

lemma commandValidate_None_iff:
  "commandValidate c = None \<longleftrightarrow>
     Use c \<noteq> [] \<and> \<not> (Long c \<noteq> [] \<and> Short c = [])
     \<and> \<not> (Run c \<noteq> None \<and> SubCommands c \<noteq> [])
     \<and> \<not> (Run c = None \<and> SubCommands c = [])"
  by (auto simp: commandValidate_def)

lemma nodes_unfold: "nodes c = c # concat (map nodes (SubCommands c))"
  by (cases c) simp

lemma subCommandsToCobra_isl:
  assumes "\<And>c n. c \<in> set cs \<Longrightarrow>
      isl (commandToCobra container c n) = (\<exists>x \<in> set (nodes c). commandValidate x \<noteq> None)"
  shows "isl (subCommandsToCobra container cs cc n) =
      (\<exists>c \<in> set cs. \<exists>x \<in> set (nodes c). commandValidate x \<noteq> None)"
  using assms
proof (induction cs arbitrary: cc n)
  case Nil
  show ?case by simp
next
  case (Cons c cs)
  have here: "isl (commandToCobra container c n) = (\<exists>x \<in> set (nodes c). commandValidate x \<noteq> None)"
    using Cons.prems by simp
  have rest: "\<And>cc n. isl (subCommandsToCobra container cs cc n) =
      (\<exists>c \<in> set cs. \<exists>x \<in> set (nodes c). commandValidate x \<noteq> None)"
    using Cons.IH Cons.prems by simp
  show ?case
  proof (cases "commandToCobra container c n")
    case (Inl e)
    with here show ?thesis by auto
  next
    case (Inr r)
    obtain sub n' where r: "r = (sub, n')" by (cases r)
    from Inr here have "\<not> (\<exists>x \<in> set (nodes c). commandValidate x \<noteq> None)" by auto
    with Inr r rest [of "AddCommand cc sub" n'] show ?thesis by auto
  qed
qed

lemma commandToCobra_unfold:
  "commandToCobra container c n =
     (case commandValidate c of
        Some e \<Rightarrow> Inl e
      | None \<Rightarrow>
          if SubCommands c \<noteq> []
          then (case subCommandsToCobra container (SubCommands c)
                       (modify (\<lambda>f. f\<lparr>cRun := Some (subCommandRun container n)\<rparr>)
                          (initial container c n)) (Suc n) of
                  Inl e \<Rightarrow> Inl e
                | Inr (cc, n') \<Rightarrow> Inr (finish container c (addHelpTreeFlag container cc), n'))
          else Inr (finish container c (initial container c n), Suc n))"
  by (cases c) (simp add: Let_def initial_def finish_def split: option.splits sum.splits prod.splits)

lemma commandToCobra_isl:
  "isl (commandToCobra container c n) = (\<exists>x \<in> set (nodes c). commandValidate x \<noteq> None)"
proof (induction c arbitrary: n)
  case (Command use short long hidden runFunc subCommands modifyCobra version)
  let ?c = "Command use short long hidden runFunc subCommands modifyCobra version"
  have subs: "\<And>cc n. isl (subCommandsToCobra container subCommands cc n) =
      (\<exists>c \<in> set subCommands. \<exists>x \<in> set (nodes c). commandValidate x \<noteq> None)"
    by (rule subCommandsToCobra_isl) (use Command.IH in simp)
  show ?case
  proof (cases "commandValidate ?c")
    case (Some e)
    then show ?thesis by (simp add: commandToCobra_unfold)
  next
    case None
    show ?thesis
    proof (cases "subCommands = []")
      case True
      with None show ?thesis
        by (simp add: commandToCobra_unfold)
    next
      case False
      have "isl (commandToCobra container ?c n) =
          isl (subCommandsToCobra container subCommands
                 (modify (\<lambda>f. f\<lparr>cRun := Some (subCommandRun container n)\<rparr>)
                    (initial container ?c n)) (Suc n))"
        using None False by (simp add: commandToCobra_unfold split: sum.splits prod.splits)
      with None subs show ?thesis
        by simp
    qed
  qed
qed

lemma subtrees_unfold: "subtrees y = y # concat (map subtrees (Commands y))"
  by (cases y) simp

lemma addrs_unfold: "addrs y = cAddr (attrs y) # concat (map addrs (Commands y))"
  unfolding addrs_def by (subst subtrees_unfold) (simp add: map_concat comp_def)

lemma modify_simps [simp]:
  "attrs (modify f y) = f (attrs y)" "Commands (modify f y) = Commands y"
  by (simp_all add: modify_def)

lemma AddCommand_simps [simp]:
  "attrs (AddCommand y s) = attrs y" "Commands (AddCommand y s) = Commands y @ [s]"
  by (simp_all add: AddCommand_def)

lemma addHelpTreeFlag_simps [simp]:
  "Commands (addHelpTreeFlag container y) = Commands y"
  "cAddr (attrs (addHelpTreeFlag container y)) = cAddr (attrs y)"
  by (simp_all add: addHelpTreeFlag_def Let_def)

lemma addVersionFlag_simps [simp]:
  "Commands (addVersionFlag container v y) = Commands y"
  "cAddr (attrs (addVersionFlag container v y)) = cAddr (attrs y)"
  by (simp_all add: addVersionFlag_def Let_def)

lemma finish_simps [simp]:
  "Commands (finish container c y) = Commands y"
  "cAddr (attrs (finish container c y)) = cAddr (attrs y)"
  by (simp_all add: finish_def)

lemma initial_simps [simp]:
  "Commands (initial container c n) = []"
  "cAddr (attrs (initial container c n)) = n"
  by (simp_all add: initial_def Let_def split: option.splits)

lemma commandToCobra_Inr_cases:
  assumes "commandToCobra container c n = Inr (y, n')"
  obtains (leaf) "commandValidate c = None" "SubCommands c = []"
      "y = finish container c (initial container c n)" "n' = Suc n"
  | (parent) cc where "commandValidate c = None" "SubCommands c \<noteq> []"
      "subCommandsToCobra container (SubCommands c)
         (modify (\<lambda>f. f\<lparr>cRun := Some (subCommandRun container n)\<rparr>) (initial container c n))
         (Suc n) = Inr (cc, n')"
      "y = finish container c (addHelpTreeFlag container cc)"
  using assms
  by (auto simp: commandToCobra_unfold split: option.splits if_splits sum.splits prod.splits)

lemma subCommandsToCobra_shape:
  assumes "subCommandsToCobra container cs cc n = Inr (cc', n')"
    and "\<And>c k y k'. c \<in> set cs \<Longrightarrow> commandToCobra container c k = Inr (y, k') \<Longrightarrow>
           addrs y = [k..<k'] \<and> k < k'"
  shows "attrs cc' = attrs cc \<and> n \<le> n' \<and>
     (\<exists>subs. Commands cc' = Commands cc @ subs \<and> list_all2 (compiled container) cs subs
        \<and> concat (map addrs subs) = [n..<n'])"
  using assms
proof (induction cs arbitrary: cc n)
  case Nil
  then show ?case by simp
next
  case (Cons c cs)
  from Cons.prems(1) obtain sub k where
    one: "commandToCobra container c n = Inr (sub, k)" and
    more: "subCommandsToCobra container cs (AddCommand cc sub) k = Inr (cc', n')"
    by (auto split: sum.splits prod.splits)
  from Cons.prems(2) [OF _ one] have a: "addrs sub = [n..<k]" and lt: "n < k"
    by simp_all
  have "attrs cc' = attrs (AddCommand cc sub) \<and> k \<le> n' \<and>
     (\<exists>subs. Commands cc' = Commands (AddCommand cc sub) @ subs
        \<and> list_all2 (compiled container) cs subs \<and> concat (map addrs subs) = [k..<n'])"
    by (rule Cons.IH [OF more]) (use Cons.prems(2) in auto)
  then obtain subs where ih: "attrs cc' = attrs cc" "k \<le> n'"
      "Commands cc' = (Commands cc @ [sub]) @ subs"
      "list_all2 (compiled container) cs subs" "concat (map addrs subs) = [k..<n']"
    by auto
  have c: "compiled container c sub"
    using one by (auto simp: compiled_def)
  have "[n..<k] @ [k..<n'] = [n..<n']"
    using lt ih(2) by (metis less_imp_le_nat upt_add_eq_append le_Suc_ex)
  with ih a c lt show ?case
    by (intro conjI exI [of _ "sub # subs"]) auto
qed

lemma commandToCobra_addrs:
  "commandToCobra container c n = Inr (y, n') \<Longrightarrow> addrs y = [n..<n'] \<and> n < n'"
proof (induction c arbitrary: n y n')
  case (Command use short long hidden runFunc subCommands modifyCobra version)
  let ?c = "Command use short long hidden runFunc subCommands modifyCobra version"
  from Command.prems show ?case
  proof (cases rule: commandToCobra_Inr_cases)
    case leaf
    then show ?thesis
      by (subst addrs_unfold) simp
  next
    case (parent cc)
    have "attrs cc = attrs (modify (\<lambda>f. f\<lparr>cRun := Some (subCommandRun container n)\<rparr>)
        (initial container ?c n)) \<and> Suc n \<le> n' \<and>
      (\<exists>subs. Commands cc = Commands (modify (\<lambda>f. f\<lparr>cRun := Some (subCommandRun container n)\<rparr>)
        (initial container ?c n)) @ subs \<and> list_all2 (compiled container) subCommands subs
        \<and> concat (map addrs subs) = [Suc n..<n'])"
      by (rule subCommandsToCobra_shape [OF parent(3) [simplified]])
         (use Command.IH in auto)
    then obtain subs where s: "attrs cc = attrs (modify (\<lambda>f. f\<lparr>cRun := Some (subCommandRun container n)\<rparr>)
        (initial container ?c n))" "Suc n \<le> n'" "Commands cc = subs"
        "concat (map addrs subs) = [Suc n..<n']"
      by auto
    have "addrs y = n # [Suc n..<n']"
      using s parent(4) by (subst addrs_unfold) simp
    with s(2) show ?thesis
      by (simp add: upt_conv_Cons)
  qed
qed

lemma subCommandsToCobra_children:
  assumes "subCommandsToCobra container cs cc n = Inr (cc', n')"
  shows "attrs cc' = attrs cc \<and>
     (\<exists>subs. Commands cc' = Commands cc @ subs \<and> list_all2 (compiled container) cs subs)"
  using subCommandsToCobra_shape [OF assms] commandToCobra_addrs by blast

lemma list_all2_concat:
  "list_all2 (\<lambda>x y. list_all2 R (f x) (g y)) xs ys \<Longrightarrow>
   list_all2 R (concat (map f xs)) (concat (map g ys))"
  by (induction xs ys rule: list_all2_induct) (auto intro: list_all2_appendI)

lemma commandToCobra_subtrees:
  "commandToCobra container c n = Inr (y, n') \<Longrightarrow>
   list_all2 (compiled container) (nodes c) (subtrees y)"
proof (induction c arbitrary: n y n')
  case (Command use short long hidden runFunc subCommands modifyCobra version)
  let ?c = "Command use short long hidden runFunc subCommands modifyCobra version"
  have top: "compiled container ?c y"
    using Command.prems by (auto simp: compiled_def)
  from Command.prems show ?case
  proof (cases rule: commandToCobra_Inr_cases)
    case leaf
    with top show ?thesis
      by (subst subtrees_unfold) simp
  next
    case (parent cc)
    from subCommandsToCobra_children [OF parent(3)]
    obtain subs where s: "Commands cc = subs" "list_all2 (compiled container) subCommands subs"
      by auto
    have "list_all2 (\<lambda>x y. list_all2 (compiled container) (nodes x) (subtrees y)) subCommands subs"
      using s(2)
    proof (rule list.rel_mono_strong)
      fix x z assume "x \<in> set subCommands" "compiled container x z"
      then obtain k k' where "x \<in> set subCommands" "commandToCobra container x k = Inr (z, k')"
        unfolding compiled_def by blast
      then show "list_all2 (compiled container) (nodes x) (subtrees z)"
        by (rule Command.IH)
    qed
    then have "list_all2 (compiled container) (concat (map nodes subCommands))
        (concat (map subtrees subs))"
      by (rule list_all2_concat)
    with top s(1) parent(4) show ?thesis
      by (subst subtrees_unfold) simp
  qed
qed

lemma subCommandsToCobra_Inl:
  assumes "subCommandsToCobra container cs cc n = Inl e"
    and "\<And>c k. c \<in> set cs \<Longrightarrow> commandToCobra container c k = Inl e \<Longrightarrow>
           \<exists>x \<in> set (nodes c). commandValidate x = Some e"
  shows "\<exists>c \<in> set cs. \<exists>x \<in> set (nodes c). commandValidate x = Some e"
  using assms
proof (induction cs arbitrary: cc n)
  case Nil
  then show ?case by simp
next
  case (Cons c cs)
  show ?case
  proof (cases "commandToCobra container c n")
    case (Inl e')
    with Cons.prems(1) have "e' = e" by simp
    with Inl Cons.prems(2) [of c n] show ?thesis by auto
  next
    case (Inr r)
    obtain sub k where r: "r = (sub, k)" by (cases r)
    from Cons.prems(1) Inr r
    have more: "subCommandsToCobra container cs (AddCommand cc sub) k = Inl e" by simp
    have "\<exists>c \<in> set cs. \<exists>x \<in> set (nodes c). commandValidate x = Some e"
      by (rule Cons.IH [OF more]) (use Cons.prems(2) in auto)
    then show ?thesis by auto
  qed
qed

lemma commandToCobra_Inl:
  "commandToCobra container c n = Inl e \<Longrightarrow> \<exists>x \<in> set (nodes c). commandValidate x = Some e"
proof (induction c arbitrary: n)
  case (Command use short long hidden runFunc subCommands modifyCobra version)
  let ?c = "Command use short long hidden runFunc subCommands modifyCobra version"
  show ?case
  proof (cases "commandValidate ?c")
    case (Some e')
    with Command.prems have "e' = e" by (simp add: commandToCobra_unfold)
    with Some show ?thesis by simp
  next
    case None
    with Command.prems have ne: "subCommands \<noteq> []" and
      sub: "subCommandsToCobra container subCommands
         (modify (\<lambda>f. f\<lparr>cRun := Some (subCommandRun container n)\<rparr>) (initial container ?c n))
         (Suc n) = Inl e"
      by (auto simp: commandToCobra_unfold split: if_splits sum.splits prod.splits)
    have "\<exists>c \<in> set subCommands. \<exists>x \<in> set (nodes c). commandValidate x = Some e"
      by (rule subCommandsToCobra_Inl [OF sub]) (use Command.IH in auto)
    then show ?thesis by auto
  qed
qed

lemma run_build_failure:
  assumes "commandToCobra container c 0 = Inl e"
  shows "run lib container c io = (io, Returned (Some e))"
  using assms by (simp add: run_def prepare_def)

lemma compiled_handler:
  assumes "commandToCobra container x k = Inr (y, k')"
  shows "call (cRun (attrs y)) view flags cmd args (io, slot) =
     (if Version x \<noteq> [] \<and> flags ''version''
      then Some (Write (Stdout container) (Version x @ [CHR 0x0A]) io)
      else if SubCommands x \<noteq> []
        then (if flags ''help-tree''
              then Some (Write (Stdout container) (helpTreeString view cmd) io)
              else subCommandRun container k view flags cmd args (io, slot))
      else (case Run x of
              Some commandRun \<Rightarrow> leafRun container commandRun k view flags cmd args (io, slot)
            | None \<Rightarrow> None))"
  using assms
proof (cases rule: commandToCobra_Inr_cases)
  case leaf
  then show ?thesis
    by (simp add: finish_def addVersionFlag_def initial_def call_def Let_def split: option.splits)
next
  case (parent cc)
  from subCommandsToCobra_children [OF parent(3)]
  have "cRun (attrs cc) = Some (subCommandRun container k)" by simp
  with parent show ?thesis
    by (simp add: finish_def addVersionFlag_def addHelpTreeFlag_def call_def Let_def)
qed

lemma printUsage_eq:
  "printUsage container usage io =
     (if broken io (Stderr container) = None
      then io\<lparr>written := (written io)
             (Stderr container := written io (Stderr container) @ usage @ [CHR 0x0A])\<rparr>
      else io)"
  by (auto simp: printUsage_def Write_def split: option.splits)

lemma commandToCobra_addr:
  assumes "commandToCobra container x k = Inr (y, k')"
  shows "cAddr (attrs y) = k"
  using assms
proof (cases rule: commandToCobra_Inr_cases)
  case leaf
  then show ?thesis by simp
next
  case (parent cc)
  from subCommandsToCobra_children [OF parent(3)] parent(4) show ?thesis by simp
qed

lemma commandToCobra_valid:
  assumes "commandToCobra container x k = Inr (y, k')"
  shows "commandValidate x = None"
  using assms by (cases rule: commandToCobra_Inr_cases) auto

lemma run_returns_slot:
  assumes "prepare lib container root = Ready cc"
    and "Execute lib cc (io0, None) = Some ((io1, slot1), None)"
  shows "run lib container root io0 = (io1, Returned slot1)"
  using assms by (simp add: run_def)

lemma Args_argValues: "Args a = Some (argValues a)"
  using Args_NewArgContainer [of "argValues a"]
  by (cases a) (simp add: NewArgContainer_def newArgContainer_def)

lemma synthetic_commands_build:
  "\<not> isl (commandToCobra container (completionCommand lib r) k)"
  "\<not> isl (commandToCobra container (manpagesCommand lib r) k)"
  by (simp_all add: commandToCobra_isl completionCommand_def manpagesCommand_def
      commandValidate_def)

lemma prepare_Ready_args:
  assumes "prepare lib container command = Ready cc"
  shows "argValues (argFacet container) \<noteq> []
     \<and> cArgs (attrs cc) = Some (tl (argValues (argFacet container)))
     \<and> cOut (attrs cc) =
         Some (if tl (argValues (argFacet container)) \<noteq> []
                  \<and> HasPrefix (hd (tl (argValues (argFacet container)))) ''__complete''
               then Stdout container else Stderr container)
     \<and> cErr (attrs cc) = Some (Stderr container)
     \<and> cIn (attrs cc) = Some (Stdin container)"
  using assms unfolding prepare_def Let_def Args_argValues
  by (auto split: sum.splits prod.splits option.splits list.splits if_splits)

lemma prepare_Ready:
  assumes "prepare lib container command = Ready cc"
  shows "\<exists>arg0 rest. Args (argFacet container) = Some (arg0 # rest)
     \<and> cArgs (attrs cc) = Some rest
     \<and> cOut (attrs cc) =
         Some (if rest \<noteq> [] \<and> HasPrefix (hd rest) ''__complete''
               then Stdout container else Stderr container)
     \<and> cErr (attrs cc) = Some (Stderr container)
     \<and> cIn (attrs cc) = Some (Stdin container)"
proof -
  from prepare_Ready_args [OF assms]
  obtain arg0 rest where "argValues (argFacet container) = arg0 # rest"
    by (cases "argValues (argFacet container)") auto
  with prepare_Ready_args [OF assms] show ?thesis
    by (intro exI [of _ arg0] exI [of _ rest]) (simp add: Args_argValues)
qed

lemma not_isl_Inr:
  assumes "\<not> isl r"
  obtains y k where "r = Inr (y, k)"
  using assms by (cases r) auto

lemma prepare_valid:
  assumes "\<forall>x \<in> set (nodes command). commandValidate x = None"
    and "ModifyCobra command = None"
  shows "(\<forall>arg0 rest. Args (argFacet container) = Some (arg0 # rest) \<longrightarrow>
            (\<exists>cc. prepare lib container command = Ready cc))
     \<and> (Args (argFacet container) = Some [] \<longrightarrow> prepare lib container command = Panics)"
proof -
  from assms(1) have "\<not> isl (commandToCobra container command 0)"
    by (simp add: commandToCobra_isl)
  then obtain y k where y: "commandToCobra container command 0 = Inr (y, k)"
    by (rule not_isl_Inr)
  let ?root = "cAddr (attrs (modify (\<lambda>f. f\<lparr>cDisableDefaultCmd := True\<rparr>) y))"
  obtain s k2 where s: "commandToCobra container (completionCommand lib ?root) k = Inr (s, k2)"
    using synthetic_commands_build(1) by (rule not_isl_Inr)
  obtain m k3 where m: "commandToCobra container (manpagesCommand lib ?root) k2 = Inr (m, k3)"
    using synthetic_commands_build(2) by (rule not_isl_Inr)
  show ?thesis
    using y s m assms(2) unfolding prepare_def Let_def by auto
qed

lemma prepare_progress:
  assumes "\<forall>x \<in> set (nodes command). commandValidate x = None"
    and "ModifyCobra command = None"
    and "Args (argFacet container) = Some (arg0 # rest)"
  shows "\<exists>cc. prepare lib container command = Ready cc"
  using prepare_valid [OF assms(1,2)] assms(3) by blast

lemma prepare_empty:
  assumes "\<forall>x \<in> set (nodes command). commandValidate x = None"
    and "ModifyCobra command = None"
    and "Args (argFacet container) = Some []"
  shows "prepare lib container command = Panics"
  using prepare_valid [OF assms(1,2)] assms(3) by blast

lemma exampleTree_builds:
  "\<exists>cc n'. commandToCobra container exampleTree 0 = Inr (cc, n')"
proof -
  have "\<not> isl (commandToCobra container exampleTree 0)"
    by (simp add: commandToCobra_isl exampleTree_def commandValidate_def)
  then show ?thesis
    by (rule not_isl_Inr) blast
qed

section \<open>Properties of validation, dispatch and argument routing\<close>

text \<open>
  C2. \<^verbatim>\<open>commandValidate\<close> accepts a command exactly when its usage string is not empty,
  a long text comes with a short text, and exactly one of an action and a non-empty set
  of sub-commands is present. \<^verbatim>\<open>commandToCobra\<close> fails exactly when some node of the tree,
  the root or any descendant, fails validation. In that case \<^verbatim>\<open>run\<close> returns a validation
  error of one of the nodes, whatever the library and the streams are, and leaves the
  streams as they were: \<^verbatim>\<open>Execute\<close> is not reached and nothing has run.
\<close>

theorem build_validation:
  "(commandValidate c = None \<longleftrightarrow>
      Use c \<noteq> [] \<and> \<not> (Long c \<noteq> [] \<and> Short c = [])
      \<and> \<not> (Run c \<noteq> None \<and> SubCommands c \<noteq> [])
      \<and> \<not> (Run c = None \<and> SubCommands c = []))
   \<and> (isl (commandToCobra container root n) \<longleftrightarrow>
        (\<exists>x \<in> set (nodes root). commandValidate x \<noteq> None))
   \<and> ((\<exists>x \<in> set (nodes root). commandValidate x \<noteq> None) \<longrightarrow>
        (\<exists>e. (\<exists>x \<in> set (nodes root). commandValidate x = Some e)
           \<and> (\<forall>lib io. run lib container root io = (io, Returned (Some e)))))"
proof -
  have "\<exists>e. (\<exists>x \<in> set (nodes root). commandValidate x = Some e)
           \<and> (\<forall>lib io. run lib container root io = (io, Returned (Some e)))"
    if "\<exists>x \<in> set (nodes root). commandValidate x \<noteq> None"
  proof -
    from that have "isl (commandToCobra container root 0)"
      by (simp add: commandToCobra_isl)
    then obtain e where e: "commandToCobra container root 0 = Inl e"
      by (cases "commandToCobra container root 0") auto
    from commandToCobra_Inl [OF e] run_build_failure [OF e] show ?thesis by blast
  qed
  then show ?thesis
    using commandValidate_None_iff [of c] commandToCobra_isl [of container root n] by blast
qed

theorem build_validation_witness:
  "commandValidate exampleTree = None
   \<and> commandValidate (Command ''format'' [] ''Formats the files'' False (Some rejectArgs) [] None [])
       = Some (ErrorString ''must set Command.Short if Command.Long is set'')
   \<and> isl (commandToCobra (exampleContainer [''app'']) brokenTree 0)
   \<and> (\<exists>e. \<forall>lib io. run lib (exampleContainer [''app'']) brokenTree io = (io, Returned (Some e)))"
proof -
  have bad: "\<exists>x \<in> set (nodes brokenTree). commandValidate x \<noteq> None"
    by (simp add: brokenTree_def commandValidate_def)
  have ok: "commandValidate exampleTree = None"
    by (simp add: exampleTree_def commandValidate_def)
  have short: "commandValidate (Command ''format'' [] ''Formats the files'' False (Some rejectArgs) [] None [])
       = Some (ErrorString ''must set Command.Short if Command.Long is set'')"
    by (simp add: commandValidate_def)
  from build_validation [of exampleTree "exampleContainer [''app'']" brokenTree 0] bad ok short
  show ?thesis by blast
qed




text \<open>
  C4. Take any tree that builds and any node \<open>i\<close> of it that has an action. If the
  action, run on the container with the positional arguments, returns an error that is
  an invalid-argument error (and the version flag does not pre-empt the action), then
  the \<^verbatim>\<open>Run\<close> of the compiled node \<open>i\<close> prints the usage of the compiled node \<open>i\<close> itself:
  its address differs from the address of every other node of the compiled tree, so the
  usage is that of no ancestor. The usage and a newline are appended once to what
  standard error holds after the action. The slot receives the error as the action
  returned it, and \<^verbatim>\<open>run\<close> returns the content of the slot when \<^verbatim>\<open>Execute\<close> returns no error
  of its own.
\<close>

theorem leaf_invalid_argument_usage:
  assumes "commandToCobra container root n = Inr (croot, n')"
    and "i < length (nodes root)"
    and "Run (nodes root ! i) = Some commandRun"
    and "commandRun (NewContainerForArgs container args) io = Some (io', Some e)"
    and "errors_As is_invalidArgumentError e \<noteq> None"
    and "Version (nodes root ! i) = [] \<or> \<not> flags ''version''"
  shows "length (subtrees croot) = length (nodes root)
     \<and> call (cRun (attrs (subtrees croot ! i))) view flags cmd args (io, slot) =
         Some (printUsage container (UsageString view (cAddr (attrs (subtrees croot ! i)))) io',
               Some e)
     \<and> (\<forall>j < length (subtrees croot). j \<noteq> i \<longrightarrow>
          cAddr (attrs (subtrees croot ! j)) \<noteq> cAddr (attrs (subtrees croot ! i)))
     \<and> (broken io' (Stderr container) = None \<longrightarrow>
          written (printUsage container (UsageString view (cAddr (attrs (subtrees croot ! i)))) io')
            (Stderr container) =
          written io' (Stderr container)
            @ UsageString view (cAddr (attrs (subtrees croot ! i))) @ [CHR 0x0A])
     \<and> (\<forall>lib r cc io0 io1 slot1.
          prepare lib container r = Ready cc
          \<and> Execute lib cc (io0, None) = Some ((io1, slot1), None) \<longrightarrow>
          run lib container r io0 = (io1, Returned slot1))"
proof -
  let ?x = "nodes root ! i" and ?y = "subtrees croot ! i"
  have rel: "list_all2 (compiled container) (nodes root) (subtrees croot)"
    using assms(1) by (rule commandToCobra_subtrees)
  then have len: "length (subtrees croot) = length (nodes root)"
    by (simp add: list_all2_lengthD)
  from rel assms(2) have "compiled container ?x ?y"
    by (rule list_all2_nthD)
  then obtain k k' where node: "commandToCobra container ?x k = Inr (?y, k')"
    unfolding compiled_def by blast
  have k: "cAddr (attrs ?y) = k"
    using node by (rule commandToCobra_addr)
  have "commandValidate ?x = None"
    using node by (rule commandToCobra_valid)
  with assms(3) have leaf: "SubCommands ?x = []"
    by (simp add: commandValidate_None_iff)
  have "call (cRun (attrs ?y)) view flags cmd args (io, slot) =
      leafRun container commandRun k view flags cmd args (io, slot)"
    using compiled_handler [OF node] leaf assms(3,6) by auto
  also have "\<dots> = Some (printUsage container (UsageString view k) io', Some e)"
    using assms(4,5) by (simp add: leafRun_def isInvalidArgument_def)
  finally have run: "call (cRun (attrs ?y)) view flags cmd args (io, slot) =
      Some (printUsage container (UsageString view (cAddr (attrs ?y))) io', Some e)"
    by (simp add: k)
  have "distinct (addrs croot)"
    using commandToCobra_addrs [OF assms(1)] by simp
  then have own: "\<forall>j < length (subtrees croot). j \<noteq> i \<longrightarrow>
      cAddr (attrs (subtrees croot ! j)) \<noteq> cAddr (attrs ?y)"
    using assms(2) len by (auto simp: addrs_def distinct_conv_nth)
  have ret: "\<forall>lib r cc io0 io1 slot1.
      prepare lib container r = Ready cc
      \<and> Execute lib cc (io0, None) = Some ((io1, slot1), None) \<longrightarrow>
      run lib container r io0 = (io1, Returned slot1)"
    using run_returns_slot by blast
  have once: "broken io' (Stderr container) = None \<longrightarrow>
      written (printUsage container (UsageString view (cAddr (attrs ?y))) io') (Stderr container) =
      written io' (Stderr container) @ UsageString view (cAddr (attrs ?y)) @ [CHR 0x0A]"
    by (simp add: printUsage_eq)
  from len run own once ret show ?thesis
    by blast
qed

theorem leaf_invalid_argument_usage_witness:
  "\<exists>croot n'. commandToCobra (exampleContainer [''app'', ''lint'', ''x'']) exampleTree 0
       = Inr (croot, n')
     \<and> length (subtrees croot) = 3
     \<and> call (cRun (attrs (subtrees croot ! 1))) exampleView (\<lambda>name. False) 1 [''x'']
         (exampleIO, None) =
         Some (exampleIO\<lparr>written := (written exampleIO)(2 := ''usage of command I'' @ [CHR 0x0A])\<rparr>,
               Some (InvalidArgumentError (ErrorString ''unexpected argument'')))"
proof -
  let ?c = "exampleContainer [''app'', ''lint'', ''x'']"
  obtain croot n' where b: "commandToCobra ?c exampleTree 0 = Inr (croot, n')"
    using exampleTree_builds by blast
  have n: "nodes exampleTree =
     [exampleTree, Command ''lint'' ''Lint'' [] False (Some rejectArgs) [] None [],
      Command ''format'' ''Format'' [] False (Some rejectArgs) [] None ''1.2.3'']"
    by (simp add: exampleTree_def)
  have i: "1 < length (nodes exampleTree)"
    by (simp add: n)
  have r: "Run (nodes exampleTree ! 1) = Some rejectArgs"
    by (simp add: n)
  have v: "Version (nodes exampleTree ! 1) = [] \<or> \<not> (\<lambda>name. False) ''version''"
    by simp
  have act: "rejectArgs (NewContainerForArgs ?c [''x'']) exampleIO =
      Some (exampleIO, Some (InvalidArgumentError (ErrorString ''unexpected argument'')))"
    by (simp add: rejectArgs_def)
  have inv: "errors_As is_invalidArgumentError
      (InvalidArgumentError (ErrorString ''unexpected argument'')) \<noteq> None"
    by simp
  note t = leaf_invalid_argument_usage [OF b i r act inv v, of exampleView 1 None]
  from t have len: "length (subtrees croot) = 3"
    by (simp add: n)
  have "addrs croot = [0..<n']"
    using commandToCobra_addrs [OF b] by simp
  then have "map (\<lambda>y. cAddr (attrs y)) (subtrees croot) ! 1 = [0..<n'] ! 1"
    by (simp add: addrs_def)
  moreover have "length [0..<n'] = 3"
    using \<open>addrs croot = [0..<n']\<close> len by (metis addrs_def length_map)
  ultimately have "cAddr (attrs (subtrees croot ! 1)) = 1"
    using len by simp
  then have a: "cAddr (attrs (subtrees croot ! Suc 0)) = Suc 0"
    by simp
  from t have "call (cRun (attrs (subtrees croot ! 1))) exampleView (\<lambda>name. False) 1 [''x'']
         (exampleIO, None) =
         Some (exampleIO\<lparr>written := (written exampleIO)(2 := ''usage of command I'' @ [CHR 0x0A])\<rparr>,
               Some (InvalidArgumentError (ErrorString ''unexpected argument'')))"
    by (simp add: a printUsage_eq exampleView_def exampleIO_def exampleContainer_def newContainer_def)
  with b len show ?thesis by blast
qed

text \<open>
  C6. For a command with a non-empty version, the build adds the flag \<^verbatim>\<open>version\<close>, and
  with the flag set the \<^verbatim>\<open>Run\<close> of the compiled command is one write of the version and a
  newline to standard output, whose result goes to the slot. The result does not depend
  on the action, on the sub-commands or on the help-tree flag: none of them is
  consulted. On a stream that does not fail, standard output grows by exactly the
  version and a newline, every other stream stays as it was, and the slot is \<^verbatim>\<open>nil\<close>.
\<close>

theorem version_flag_short_circuit:
  assumes "commandToCobra container c n = Inr (cc, n')"
    and "Version c \<noteq> []"
    and "flags ''version''"
  shows "call (cRun (attrs cc)) view flags cmd args (io, slot) =
           Some (Write (Stdout container) (Version c @ [CHR 0x0A]) io)
     \<and> ''version'' \<in> set (cFlags (attrs cc))
     \<and> (broken io (Stdout container) = None \<longrightarrow>
          Write (Stdout container) (Version c @ [CHR 0x0A]) io =
            (io\<lparr>written := (written io)
                (Stdout container := written io (Stdout container) @ Version c @ [CHR 0x0A])\<rparr>,
             None))"
proof -
  have a: "call (cRun (attrs cc)) view flags cmd args (io, slot) =
           Some (Write (Stdout container) (Version c @ [CHR 0x0A]) io)"
    using compiled_handler [OF assms(1)] assms(2,3) by simp
  have b: "''version'' \<in> set (cFlags (attrs cc))"
    using assms(1)
    by (cases rule: commandToCobra_Inr_cases)
       (use assms(2) in \<open>simp_all add: finish_def addVersionFlag_def Let_def\<close>)
  show ?thesis
    using a b by (simp add: Write_def)
qed

theorem version_flag_short_circuit_witness:
  "\<exists>cc n'. commandToCobra (exampleContainer [''app'', ''--version'']) exampleTree 0 = Inr (cc, n')
     \<and> call (cRun (attrs cc)) exampleView (\<lambda>name. name = ''version'') 0 [] (exampleIO, None) =
         Some (exampleIO\<lparr>written := (written exampleIO)(1 := ''0.1.0'' @ [CHR 0x0A])\<rparr>, None)"
proof -
  let ?c = "exampleContainer [''app'', ''--version'']"
  obtain cc n' where b: "commandToCobra ?c exampleTree 0 = Inr (cc, n')"
    using exampleTree_builds by blast
  have v: "Version exampleTree \<noteq> []" "Version exampleTree = ''0.1.0''"
    by (simp_all add: exampleTree_def)
  have f: "(\<lambda>name. name = ''version'') ''version''"
    by simp
  from version_flag_short_circuit [where flags = "\<lambda>name. name = ''version''" and view = exampleView
      and cmd = 0 and args = "[]" and io = exampleIO and slot = None, OF b v(1)]
  have "call (cRun (attrs cc)) exampleView (\<lambda>name. name = ''version'') 0 [] (exampleIO, None) =
         Some (exampleIO\<lparr>written := (written exampleIO)(1 := ''0.1.0'' @ [CHR 0x0A])\<rparr>, None)"
    by (simp add: v(2) exampleIO_def exampleContainer_def newContainer_def)
  with b show ?thesis by blast
qed

text \<open>
  C5, as stated, fails in two places. With the arguments \<^verbatim>\<open>app lint __complete\<close> one of the
  remaining arguments begins with \<^verbatim>\<open>__complete\<close>, but it is not the first of them, and the
  output stays standard error. With an empty argument list there is no first argument to
  drop: the slice expression panics and nothing is handed to the tree.
\<close>

theorem run_completion_prefix_counterexample:
  "(\<exists>a \<in> set (tl [''app'', ''lint'', ''__complete'']). HasPrefix a ''__complete'')
   \<and> (\<exists>cc. prepare exampleLib (exampleContainer [''app'', ''lint'', ''__complete'']) exampleTree
          = Ready cc
        \<and> cArgs (attrs cc) = Some [''lint'', ''__complete'']
        \<and> cOut (attrs cc) = Some (Stderr (exampleContainer [''app'', ''lint'', ''__complete'']))
        \<and> cOut (attrs cc) \<noteq> Some (Stdout (exampleContainer [''app'', ''lint'', ''__complete''])))
   \<and> run exampleLib (exampleContainer []) exampleTree exampleIO = (exampleIO, Panicked)"
proof -
  let ?c = "exampleContainer [''app'', ''lint'', ''__complete'']"
  have valid: "\<forall>x \<in> set (nodes exampleTree). commandValidate x = None"
    by (simp add: exampleTree_def commandValidate_def)
  have args: "Args (argFacet ?c) = Some [''app'', ''lint'', ''__complete'']"
    by (simp add: Args_argValues exampleContainer_def newContainer_def NewArgContainer_def
        newArgContainer_def)
  have "ModifyCobra exampleTree = None"
    by (simp add: exampleTree_def)
  with valid args obtain cc where cc: "prepare exampleLib ?c exampleTree = Ready cc"
    using prepare_progress by blast
  from prepare_Ready [OF cc] args
  have "cArgs (attrs cc) = Some [''lint'', ''__complete'']"
    and "cOut (attrs cc) = Some (Stderr ?c)"
    by (auto simp: HasPrefix_def)
  moreover have "Stderr ?c \<noteq> Stdout ?c"
    by (simp add: exampleContainer_def newContainer_def)
  moreover have "\<exists>a \<in> set (tl [''app'', ''lint'', ''__complete'']). HasPrefix a ''__complete''"
    by (simp add: HasPrefix_def)
  moreover have "run exampleLib (exampleContainer []) exampleTree exampleIO = (exampleIO, Panicked)"
  proof -
    have "Args (argFacet (exampleContainer [])) = Some []"
      by (simp add: Args_argValues exampleContainer_def newContainer_def NewArgContainer_def
          newArgContainer_def)
    with valid \<open>ModifyCobra exampleTree = None\<close>
    have "prepare exampleLib (exampleContainer []) exampleTree = Panics"
      by (rule prepare_empty)
    then show ?thesis by (simp add: run_def)
  qed
  ultimately show ?thesis using cc by auto
qed

text \<open>
  C5, amended. Whenever \<^verbatim>\<open>run\<close> reaches \<^verbatim>\<open>Execute\<close>, the argument list of the container is
  not empty, the tree receives the list without its first element, its error output is
  standard error, its input is standard input, and its output is standard output if the
  first of the remaining arguments begins with \<^verbatim>\<open>__complete\<close> and standard error
  otherwise; the result of \<^verbatim>\<open>run\<close> is the error of \<^verbatim>\<open>Execute\<close> or else the content of the
  slot. \<^verbatim>\<open>run\<close> does reach \<^verbatim>\<open>Execute\<close> for every tree whose nodes are all valid, without a
  \<^verbatim>\<open>ModifyCobra\<close> hook, on every non-empty argument list.
\<close>

theorem run_argument_routing:
  "(prepare lib container command = Ready cc \<longrightarrow>
      (\<exists>arg0 rest. Args (argFacet container) = Some (arg0 # rest)
         \<and> cArgs (attrs cc) = Some rest
         \<and> cOut (attrs cc) =
             Some (if rest \<noteq> [] \<and> HasPrefix (hd rest) ''__complete''
                   then Stdout container else Stderr container)
         \<and> cErr (attrs cc) = Some (Stderr container)
         \<and> cIn (attrs cc) = Some (Stdin container))
      \<and> run lib container command io =
          (case Execute lib cc (io, None) of
             None \<Rightarrow> (io, Panicked)
           | Some ((io', runErr), Some err) \<Rightarrow> (io', Returned (Some err))
           | Some ((io', runErr), None) \<Rightarrow> (io', Returned runErr)))
   \<and> ((\<forall>x \<in> set (nodes command). commandValidate x = None) \<and> ModifyCobra command = None
        \<and> Args (argFacet container) = Some (arg0 # rest) \<longrightarrow>
        (\<exists>cc. prepare lib container command = Ready cc))"
proof -
  have "run lib container command io =
          (case Execute lib cc (io, None) of
             None \<Rightarrow> (io, Panicked)
           | Some ((io', runErr), Some err) \<Rightarrow> (io', Returned (Some err))
           | Some ((io', runErr), None) \<Rightarrow> (io', Returned runErr))"
    if "prepare lib container command = Ready cc"
    using that by (simp add: run_def)
  then show ?thesis
    using prepare_Ready [of lib container command cc]
      prepare_progress [of command container arg0 rest lib]
    by blast
qed

theorem run_argument_routing_witness:
  "\<exists>cc. prepare exampleLib (exampleContainer [''app'', ''__complete'', ''li'']) exampleTree = Ready cc
     \<and> cArgs (attrs cc) = Some [''__complete'', ''li'']
     \<and> cOut (attrs cc) = Some 1
     \<and> cErr (attrs cc) = Some 2"
proof -
  let ?c = "exampleContainer [''app'', ''__complete'', ''li'']"
  have valid: "\<forall>x \<in> set (nodes exampleTree). commandValidate x = None"
    by (simp add: exampleTree_def commandValidate_def)
  have args: "Args (argFacet ?c) = Some (''app'' # [''__complete'', ''li''])"
    by (simp add: Args_argValues exampleContainer_def newContainer_def NewArgContainer_def
        newArgContainer_def)
  have m: "ModifyCobra exampleTree = None"
    by (simp add: exampleTree_def)
  from run_argument_routing [of exampleLib ?c exampleTree _ exampleIO "''app''"
      "[''__complete'', ''li'']"] valid args m
  obtain cc where cc: "prepare exampleLib ?c exampleTree = Ready cc"
    by blast
  from run_argument_routing [of exampleLib ?c exampleTree cc exampleIO "''app''"
      "[''__complete'', ''li'']"] cc args
  have "cArgs (attrs cc) = Some [''__complete'', ''li''] \<and> cOut (attrs cc) = Some 1
     \<and> cErr (attrs cc) = Some 2"
    by (auto simp: HasPrefix_def exampleContainer_def newContainer_def)
  with cc show ?thesis by blast
qed

end
